theory Spec2Isabelle
  imports Complex_Main
begin

section \<open>JavaScript numbers\<close>

text \<open>
  Prices, subtotals and totals are JavaScript numbers and \<open>REAL\<close> columns: IEEE 754
  binary64. \<open>Dbl m e\<close> is the double with value \<open>m * 2 ^ e\<close>, kept in normal form (\<open>m\<close> odd,
  or \<open>Dbl 0 0\<close>) so that equal values are equal terms. An operation computes the exact
  result and rounds it to 53 significant bits, ties to even (\<open>rnd\<close>), as \<open>*\<close> and \<open>+\<close> of
  JavaScript do. The exponent is not bounded: overflow to \<open>Infinity\<close>, subnormal
  numbers, \<open>NaN\<close> and the sign of zero are not modelled.
\<close>

datatype double = Dbl int int

text \<open>The number of binary digits of a natural number.\<close>

function blen :: "nat \<Rightarrow> nat" where
  "blen n = (if n = 0 then 0 else 1 + blen (n div 2))"
  by pat_completeness auto
termination
  by (relation "measure (\<lambda>n. n)") auto

declare blen.simps [simp del]

function norm_dbl :: "int \<Rightarrow> int \<Rightarrow> double" where
  "norm_dbl m e =
     (if m = 0 then Dbl 0 0
      else if even m then norm_dbl (m div 2) (e + 1)
      else Dbl m e)"
  by pat_completeness auto
termination
  by (relation "measure (\<lambda>(m, e). nat \<bar>m\<bar>)") auto

declare norm_dbl.simps [simp del]

text \<open>
  The double nearest to \<open>m * 2 ^ e\<close>: a magnitude of more than 53 bits loses its low
  \<open>k\<close> bits, rounded to nearest with ties to the even neighbour.
\<close>

definition rnd :: "int \<Rightarrow> int \<Rightarrow> double" where
  "rnd m e =
     (let k = blen (nat \<bar>m\<bar>) - 53 in
      if k = 0 then norm_dbl m e
      else
        let d = 2 ^ k; q = \<bar>m\<bar> div d; r = \<bar>m\<bar> mod d; h = d div 2;
            q' = (if r < h then q else if h < r then q + 1 else if even q then q else q + 1)
        in norm_dbl (sgn m * q') (e + int k))"

fun dmul :: "double \<Rightarrow> double \<Rightarrow> double" where
  "dmul (Dbl m1 e1) (Dbl m2 e2) = rnd (m1 * m2) (e1 + e2)"

fun dadd :: "double \<Rightarrow> double \<Rightarrow> double" where
  "dadd (Dbl m1 e1) (Dbl m2 e2) =
     rnd (m1 * 2 ^ nat (e1 - min e1 e2) + m2 * 2 ^ nat (e2 - min e1 e2)) (min e1 e2)"

text \<open>An integer as a JavaScript number (a JSON integer, or \<open>ToNumber\<close> of one).\<close>

definition dbl :: "int \<Rightarrow> double" where
  "dbl n = rnd n 0"

text \<open>The real number a double stands for.\<close>

fun dval :: "double \<Rightarrow> real" where
  "dval (Dbl m e) =
     (if 0 \<le> e then real_of_int m * 2 ^ nat e else real_of_int m / 2 ^ nat (- e))"

section \<open>The store (src/database.js)\<close>

text \<open>
  The four tables the order workflow touches, one record per row, one list per table
  in rowid order. Only the columns that the order handlers of src/server.js read or
  write are kept; the timestamp columns \<open>created_at\<close> and \<open>updated_at\<close> are left out.
  \<open>INTEGER\<close> columns are \<open>int\<close> (\<open>nat\<close> for the autoincremented keys), \<open>REAL\<close> columns
  are \<open>double\<close>. Field names carry a prefix per table because the tables share column
  names.
\<close>

record user =
  u_id :: nat
  u_username :: string
  u_role :: string

record product =
  p_id :: nat
  p_name :: string
  p_quantity :: int
  p_price :: double

record order =
  o_id :: nat
  o_user_id :: nat
  o_order_number :: string
  o_customer_name :: string
  o_customer_email :: "string option"
  o_customer_phone :: "string option"
  o_customer_address :: string
  o_total_amount :: double
  o_status :: string
  o_payment_method :: string
  o_payment_status :: string
  o_notes :: "string option"

record order_item =
  oi_id :: nat
  oi_order_id :: nat
  oi_product_id :: nat
  oi_product_name :: string
  oi_quantity :: int
  oi_price :: double
  oi_subtotal :: double

text \<open>
  \<open>orders_seq\<close> and \<open>order_items_seq\<close> are the \<open>sqlite_sequence\<close> entries of the two
  \<open>AUTOINCREMENT\<close> keys: the largest rowid ever handed out.
\<close>

record db =
  users :: "user list"
  products :: "product list"
  orders :: "order list"
  order_items :: "order_item list"
  orders_seq :: nat
  order_items_seq :: nat

section \<open>Requests, sessions, responses\<close>

text \<open>
  A session carries the \<open>user\<close> row read at login (\<open>req.session.user\<close>); the row may
  have been deleted from \<open>users\<close> since.

  The JSON body of \<open>POST /api/orders\<close>. A field that is absent or \<open>null\<close> is \<open>None\<close>;
  \<open>items\<close> is \<open>None\<close> when it is absent or not an array. A cart entry's quantity is a JSON
  integer or \<open>null\<close>. It is kept as the integer it denotes; only where it enters the
  price arithmetic is it the JavaScript number \<open>dbl q\<close>, which differs from \<open>q\<close> for
  magnitudes of \<open>2 ^ 53\<close> and more.
\<close>

record cart_item =
  product_id :: nat
  quantity :: "int option"

record order_request =
  items :: "cart_item list option"
  customer_name :: "string option"
  customer_email :: "string option"
  customer_phone :: "string option"
  customer_address :: "string option"
  payment_method :: "string option"
  req_notes :: "string option"

text \<open>The entries of \<open>validateItems\<close>.\<close>

record valid_item =
  v_product_id :: nat
  v_product_name :: string
  v_quantity :: "int option"
  v_price :: double
  v_subtotal :: double

text \<open>
  One constructor per error response of the handlers; \<open>SqliteError\<close> is an exception of
  the store caught by the handler's \<open>catch\<close> and answered with status 500 and the
  exception's message.
\<close>

datatype error =
    Unauthorized
  | ItemsRequired
  | CustomerRequired
  | ProductNotFound nat
  | InsufficientStock string int "int option"
  | InvalidStatus
  | OrderNotFound
  | SqliteError string

fun http_status :: "error \<Rightarrow> nat" where
  "http_status Unauthorized = 401"
| "http_status ItemsRequired = 400"
| "http_status CustomerRequired = 400"
| "http_status (ProductNotFound i) = 400"
| "http_status (InsufficientStock n a r) = 400"
| "http_status InvalidStatus = 400"
| "http_status OrderNotFound = 404"
| "http_status (SqliteError m) = 500"

section \<open>JavaScript coercions used by the handlers\<close>

text \<open>\<open>ToNumber\<close> on a quantity: \<open>null\<close> is \<open>0\<close>.\<close>

fun js_num :: "int option \<Rightarrow> int" where
  "js_num None = 0"
| "js_num (Some q) = q"

text \<open>\<open>x || null\<close> on an optional string: the empty string is falsy.\<close>

fun or_null :: "string option \<Rightarrow> string option" where
  "or_null None = None"
| "or_null (Some []) = None"
| "or_null (Some (c # cs)) = Some (c # cs)"

text \<open>\<open>x || d\<close> on an optional string.\<close>

fun or_default :: "string option \<Rightarrow> string \<Rightarrow> string" where
  "or_default None d = d"
| "or_default (Some []) d = d"
| "or_default (Some (c # cs)) d = c # cs"

section \<open>Order numbers\<close>

definition digits :: string where
  "digits = ''0123456789''"

function dec :: "nat \<Rightarrow> string" where
  "dec n = (if n < 10 then [digits ! n] else dec (n div 10) @ [digits ! (n mod 10)])"
  by pat_completeness auto
termination
  by (relation "measure (\<lambda>n. n)") auto

declare dec.simps [simp del]

text \<open>
  \<open>generateOrderNumber\<close>: the argument is the pair of \<open>Date.now()\<close> and
  \<open>Math.floor(Math.random() * 1000)\<close> that the call observes.
\<close>

definition generateOrderNumber :: "nat \<times> nat \<Rightarrow> string" where
  "generateOrderNumber tr = ''ORD-'' @ dec (fst tr) @ ''-'' @ dec (snd tr)"

section \<open>Statements on the store\<close>

text \<open>\<open>SELECT * FROM products WHERE id = ?\<close>\<close>

definition getProduct :: "product list \<Rightarrow> nat \<Rightarrow> product option" where
  "getProduct ps i = find (\<lambda>p. p_id p = i) ps"

text \<open>\<open>SELECT * FROM orders WHERE id = ?\<close>\<close>

definition getOrderRow :: "db \<Rightarrow> nat \<Rightarrow> order option" where
  "getOrderRow s i = find (\<lambda>r. o_id r = i) (orders s)"

text \<open>\<open>SELECT * FROM order_items WHERE order_id = ?\<close>\<close>

definition getOrderItems :: "db \<Rightarrow> nat \<Rightarrow> order_item list" where
  "getOrderItems s i = filter (\<lambda>r. oi_order_id r = i) (order_items s)"

text \<open>
  \<open>INSERT INTO orders\<close>: the \<open>UNIQUE\<close> constraint on \<open>order_number\<close> makes the statement
  throw on a collision, and the foreign key \<open>user_id REFERENCES users(id)\<close>, checked
  when the statement ends, makes it throw when the session's user has no row in
  \<open>users\<close>; neither leaves a row behind. Otherwise the row gets the next rowid, and
  the defaults \<open>'pending'\<close> of \<open>status\<close> and \<open>payment_status\<close>.
\<close>

definition insertOrder ::
  "db \<Rightarrow> nat \<Rightarrow> string \<Rightarrow> string \<Rightarrow> string \<Rightarrow> order_request \<Rightarrow> double \<Rightarrow> error + nat \<times> db" where
  "insertOrder s uid orderNumber name address req totalAmount =
     (if orderNumber \<in> set (map o_order_number (orders s))
      then Inl (SqliteError ''UNIQUE constraint failed: orders.order_number'')
      else if uid \<notin> set (map u_id (users s))
      then Inl (SqliteError ''FOREIGN KEY constraint failed'')
      else
        let orderId = Suc (orders_seq s) in
        Inr (orderId,
             s\<lparr>orders := orders s @
                  [\<lparr>o_id = orderId, o_user_id = uid, o_order_number = orderNumber,
                    o_customer_name = name,
                    o_customer_email = or_null (customer_email req),
                    o_customer_phone = or_null (customer_phone req),
                    o_customer_address = address,
                    o_total_amount = totalAmount,
                    o_status = ''pending'',
                    o_payment_method = or_default (payment_method req) ''cash'',
                    o_payment_status = ''pending'',
                    o_notes = or_null (req_notes req)\<rparr>],
               orders_seq := orderId\<rparr>))"

text \<open>
  \<open>INSERT INTO order_items\<close> with a quantity that is not \<open>null\<close>. Its foreign keys hold
  whenever the handler reaches it: the order row has just been inserted and the
  product row was read by the validation loop.
\<close>

definition insertOrderItem :: "db \<Rightarrow> nat \<Rightarrow> valid_item \<Rightarrow> int \<Rightarrow> db" where
  "insertOrderItem s orderId v q =
     s\<lparr>order_items := order_items s @
          [\<lparr>oi_id = Suc (order_items_seq s), oi_order_id = orderId,
            oi_product_id = v_product_id v, oi_product_name = v_product_name v,
            oi_quantity = q, oi_price = v_price v, oi_subtotal = v_subtotal v\<rparr>],
       order_items_seq := Suc (order_items_seq s)\<rparr>"

text \<open>\<open>UPDATE products SET quantity = quantity - ? WHERE id = ?\<close>\<close>

definition updateProduct :: "db \<Rightarrow> int \<Rightarrow> nat \<Rightarrow> db" where
  "updateProduct s q i =
     s\<lparr>products := map (\<lambda>p. if p_id p = i then p\<lparr>p_quantity := p_quantity p - q\<rparr> else p)
                       (products s)\<rparr>"

text \<open>\<open>UPDATE products SET quantity = quantity + ? WHERE id = ?\<close>\<close>

definition restoreProduct :: "db \<Rightarrow> int \<Rightarrow> nat \<Rightarrow> db" where
  "restoreProduct s q i =
     s\<lparr>products := map (\<lambda>p. if p_id p = i then p\<lparr>p_quantity := p_quantity p + q\<rparr> else p)
                       (products s)\<rparr>"

text \<open>\<open>UPDATE orders SET status = ? WHERE id = ?\<close>, with the number of rows changed.\<close>

definition updateOrder :: "db \<Rightarrow> string \<Rightarrow> nat \<Rightarrow> nat \<times> db" where
  "updateOrder s status i =
     (length (filter (\<lambda>r. o_id r = i) (orders s)),
      s\<lparr>orders := map (\<lambda>r. if o_id r = i then r\<lparr>o_status := status\<rparr> else r) (orders s)\<rparr>)"

section \<open>POST /api/orders\<close>

text \<open>
  The validation loop over the cart, with its two accumulators \<open>totalAmount\<close> and
  \<open>validateItems\<close>. Every product is read from the store as it is before the request:
  the loop writes nothing.
\<close>

fun validate ::
  "product list \<Rightarrow> cart_item list \<Rightarrow> double \<Rightarrow> valid_item list \<Rightarrow> error + double \<times> valid_item list" where
  "validate ps [] totalAmount validateItems = Inr (totalAmount, validateItems)"
| "validate ps (item # rest) totalAmount validateItems =
     (case getProduct ps (product_id item) of
        None \<Rightarrow> Inl (ProductNotFound (product_id item))
      | Some product \<Rightarrow>
          if p_quantity product < js_num (quantity item)
          then Inl (InsufficientStock (p_name product) (p_quantity product) (quantity item))
          else
            let subtotal = dmul (p_price product) (dbl (js_num (quantity item))) in
            validate ps rest (dadd totalAmount subtotal)
              (validateItems @
                 [\<lparr>v_product_id = p_id product, v_product_name = p_name product,
                   v_quantity = quantity item, v_price = p_price product,
                   v_subtotal = subtotal\<rparr>]))"

text \<open>
  The write loop: one \<open>INSERT INTO order_items\<close> and one \<open>UPDATE products\<close> per validated
  entry. Each statement commits on its own (the handler opens no transaction), so when
  an insert throws, the store returned is the one reached so far. The insert throws on
  a \<open>null\<close> quantity: the column is \<open>NOT NULL\<close>.
\<close>

fun write_items :: "nat \<Rightarrow> valid_item list \<Rightarrow> db \<Rightarrow> error option \<times> db" where
  "write_items orderId [] s = (None, s)"
| "write_items orderId (item # rest) s =
     (case v_quantity item of
        None \<Rightarrow> (Some (SqliteError ''NOT NULL constraint failed: order_items.quantity''), s)
      | Some q \<Rightarrow>
          write_items orderId rest
            (updateProduct (insertOrderItem s orderId item q) q (v_product_id item)))"

text \<open>
  The handler. \<open>sess\<close> is \<open>req.session.user\<close> (\<open>requireAuth\<close> answers 401 without it);
  \<open>gen k\<close> is what the \<open>k\<close>-th call of \<open>generateOrderNumber\<close> in this request would
  observe. The result is the response and the store after the request; a successful
  response carries the order row and its items as read back from the store.
\<close>

definition placeOrder ::
  "db \<Rightarrow> user option \<Rightarrow> (nat \<Rightarrow> nat \<times> nat) \<Rightarrow> order_request
     \<Rightarrow> (error + order option \<times> order_item list) \<times> db" where
  "placeOrder s sess gen req =
     (case sess of
        None \<Rightarrow> (Inl Unauthorized, s)
      | Some u \<Rightarrow>
     (case items req of
        None \<Rightarrow> (Inl ItemsRequired, s)
      | Some its \<Rightarrow>
     if its = [] then (Inl ItemsRequired, s) else
     (case customer_name req of
        None \<Rightarrow> (Inl CustomerRequired, s)
      | Some name \<Rightarrow>
     (case customer_address req of
        None \<Rightarrow> (Inl CustomerRequired, s)
      | Some address \<Rightarrow>
     if name = [] \<or> address = [] then (Inl CustomerRequired, s) else
     (case validate (products s) its (dbl 0) [] of
        Inl e \<Rightarrow> (Inl e, s)
      | Inr (totalAmount, validateItems) \<Rightarrow>
     (case insertOrder s (u_id u) (generateOrderNumber (gen 0)) name address req totalAmount of
        Inl e \<Rightarrow> (Inl e, s)
      | Inr (orderId, s1) \<Rightarrow>
     (case write_items orderId validateItems s1 of
        (Some e, s2) \<Rightarrow> (Inl e, s2)
      | (None, s2) \<Rightarrow> (Inr (getOrderRow s2 orderId, getOrderItems s2 orderId), s2))))))))"

section \<open>PUT /api/orders/:id/status\<close>

definition validStatuses :: "string list" where
  "validStatuses = [''pending'', ''processing'', ''shipped'', ''delivered'', ''cancelled'']"

text \<open>The restore loop over the order's items.\<close>

fun restore_items :: "order_item list \<Rightarrow> db \<Rightarrow> db" where
  "restore_items [] s = s"
| "restore_items (item # rest) s =
     restore_items rest (restoreProduct s (oi_quantity item) (oi_product_id item))"

definition updateOrderStatus ::
  "db \<Rightarrow> user option \<Rightarrow> nat \<Rightarrow> string \<Rightarrow> (error + unit) \<times> db" where
  "updateOrderStatus s sess i status =
     (case sess of
        None \<Rightarrow> (Inl Unauthorized, s)
      | Some u \<Rightarrow>
     if status \<notin> set validStatuses then (Inl InvalidStatus, s) else
     (case updateOrder s status i of
        (changes, s1) \<Rightarrow>
     if changes = 0 then (Inl OrderNotFound, s1) else
     if status = ''cancelled''
     then (Inr (), restore_items (getOrderItems s1 i) s1)
     else (Inr (), s1)))"

section \<open>GET /api/orders/:id\<close>

text \<open>
  The comparison of the order's owner with the caller guards an empty block: both
  branches go on to the same response.
\<close>

definition getOrder :: "db \<Rightarrow> user option \<Rightarrow> nat \<Rightarrow> error + order \<times> order_item list" where
  "getOrder s sess i =
     (case sess of
        None \<Rightarrow> Inl Unauthorized
      | Some u \<Rightarrow>
     (case getOrderRow s i of
        None \<Rightarrow> Inl OrderNotFound
      | Some order \<Rightarrow>
          if o_user_id order \<noteq> u_id u
          then Inr (order, getOrderItems s i)
          else Inr (order, getOrderItems s i)))"

section \<open>Quantities per product, and the shape of a store\<close>

text \<open>
  \<open>demand xs i\<close> is the sum of the quantities that the pairs of \<open>xs\<close> carry for
  product \<open>i\<close>; \<open>cart_demand\<close> reads the pairs off a cart (with \<open>null\<close> as \<open>0\<close>),
  \<open>items_demand\<close> off the rows of \<open>order_items\<close>. \<open>adjust d ps\<close> adds \<open>d i\<close> to the
  quantity of every row of \<open>ps\<close> whose id is \<open>i\<close>.
\<close>

fun demand :: "(nat \<times> int) list \<Rightarrow> nat \<Rightarrow> int" where
  "demand [] i = 0"
| "demand ((j, q) # xs) i = (if j = i then q else 0) + demand xs i"

definition cart_demand :: "cart_item list \<Rightarrow> nat \<Rightarrow> int" where
  "cart_demand its = demand (map (\<lambda>it. (product_id it, js_num (quantity it))) its)"

definition items_demand :: "order_item list \<Rightarrow> nat \<Rightarrow> int" where
  "items_demand rows = demand (map (\<lambda>r. (oi_product_id r, oi_quantity r)) rows)"

definition adjust :: "(nat \<Rightarrow> int) \<Rightarrow> product list \<Rightarrow> product list" where
  "adjust d ps = map (\<lambda>p. p\<lparr>p_quantity := p_quantity p + d (p_id p)\<rparr>) ps"

text \<open>
  The rows that the write loop appends to \<open>order_items\<close> for the validated entries
  \<open>vs\<close>, the first of them with rowid \<open>Suc n\<close>.
\<close>

fun rows_of :: "nat \<Rightarrow> nat \<Rightarrow> valid_item list \<Rightarrow> order_item list" where
  "rows_of orderId n [] = []"
| "rows_of orderId n (v # vs) =
     \<lparr>oi_id = Suc n, oi_order_id = orderId, oi_product_id = v_product_id v,
      oi_product_name = v_product_name v, oi_quantity = js_num (v_quantity v),
      oi_price = v_price v, oi_subtotal = v_subtotal v\<rparr> # rows_of orderId (Suc n) vs"

text \<open>
  What the validation loop records for a cart entry it accepts: the product resolves,
  the stock check passes, and name, price and subtotal are taken from the product row.
\<close>

definition priced :: "product list \<Rightarrow> cart_item \<Rightarrow> valid_item \<Rightarrow> bool" where
  "priced ps it v \<longleftrightarrow>
     v_product_id v = product_id it \<and> v_quantity v = quantity it \<and>
     v_subtotal v = dmul (v_price v) (dbl (js_num (quantity it))) \<and>
     (\<exists>p. getProduct ps (product_id it) = Some p \<and> v_price v = p_price p \<and>
          v_product_name v = p_name p \<and> \<not> p_quantity p < js_num (quantity it))"

text \<open>
  A cart that passes the validation loop: every entry resolves to a product whose stock
  is not below the requested quantity (the handler's own comparison).
\<close>

definition valid_cart :: "product list \<Rightarrow> cart_item list \<Rightarrow> bool" where
  "valid_cart ps its \<longleftrightarrow>
     (\<forall>it \<in> set its. \<exists>p. getProduct ps (product_id it) = Some p \<and>
                          \<not> p_quantity p < js_num (quantity it))"

text \<open>
  A request that fails validation, in the words of the specification: cart items empty
  or missing, customer name or address missing, a product identifier that does not
  resolve, or a requested quantity that exceeds the available stock.
\<close>

definition invalid_request :: "db \<Rightarrow> order_request \<Rightarrow> bool" where
  "invalid_request s req \<longleftrightarrow>
     items req = None \<or> items req = Some [] \<or>
     customer_name req = None \<or> customer_name req = Some [] \<or>
     customer_address req = None \<or> customer_address req = Some [] \<or>
     (\<exists>its it. items req = Some its \<and> it \<in> set its \<and>
        (getProduct (products s) (product_id it) = None \<or>
         (\<exists>p q. getProduct (products s) (product_id it) = Some p \<and>
                quantity it = Some q \<and> p_quantity p < q)))"

text \<open>
  The rowids handed out so far bound the ids in the store: no order row and no
  \<open>order_items.order_id\<close> lies beyond \<open>orders_seq\<close>. \<open>AUTOINCREMENT\<close> and the foreign
  key of \<open>order_items\<close> keep it so; it holds of an empty store and both handlers
  preserve it (\<open>wf_db_empty\<close>, \<open>placeOrder_wf\<close>, \<open>updateOrderStatus_wf\<close>).
\<close>

definition wf_db :: "db \<Rightarrow> bool" where
  "wf_db s \<longleftrightarrow> (\<forall>r \<in> set (orders s). o_id r \<le> orders_seq s) \<and>
              (\<forall>r \<in> set (order_items s). oi_order_id r \<le> orders_seq s)"

section \<open>Example stores and requests\<close>

text \<open>
  Two customers and an administrator, all three with a row in \<open>users\<close>, and a user
  whose row has been deleted while the session lives on; a store with two products (the first is the
  specification's P1: stock 10, price 100) and one with a single product of stock 20;
  a request with the customer fields filled in; a clock for the order numbers.
\<close>

definition jane :: user where
  "jane = \<lparr>u_id = 7, u_username = ''jane'', u_role = ''user''\<rparr>"

definition sam :: user where
  "sam = \<lparr>u_id = 8, u_username = ''sam'', u_role = ''user''\<rparr>"

definition admin :: user where
  "admin = \<lparr>u_id = 1, u_username = ''admin'', u_role = ''admin''\<rparr>"

definition ghost :: user where
  "ghost = \<lparr>u_id = 99, u_username = ''ghost'', u_role = ''user''\<rparr>"

definition roster :: "user list" where
  "roster = [admin, jane, sam]"

definition shelf :: db where
  "shelf = \<lparr>users = roster, products = [\<lparr>p_id = 1, p_name = ''Aspirin'', p_quantity = 10, p_price = dbl 100\<rparr>,
                         \<lparr>p_id = 2, p_name = ''Gauze'', p_quantity = 5, p_price = dbl 50\<rparr>],
            orders = [], order_items = [], orders_seq = 0, order_items_seq = 0\<rparr>"

definition shelf20 :: db where
  "shelf20 = \<lparr>users = roster, products = [\<lparr>p_id = 1, p_name = ''Aspirin'', p_quantity = 20, p_price = dbl 100\<rparr>],
            orders = [], order_items = [], orders_seq = 0, order_items_seq = 0\<rparr>"

definition cart :: "cart_item list \<Rightarrow> order_request" where
  "cart its = \<lparr>items = Some its, customer_name = Some ''Jane'', customer_email = None,
     customer_phone = None, customer_address = Some ''123 Rd'', payment_method = None,
     req_notes = None\<rparr>"

definition clock :: "nat \<Rightarrow> nat \<times> nat" where
  "clock k = (1700000000000 + k, 42)"

text \<open>
  The order row and the item rows that the example requests produce, and the stores
  reached by placing an order for 5 units on \<open>shelf20\<close>, by cancelling it, and by
  placing an order for 3 units on \<open>shelf\<close>.
\<close>

definition order_row :: "double \<Rightarrow> string \<Rightarrow> order" where
  "order_row tot st =
     \<lparr>o_id = 1, o_user_id = 7, o_order_number = ''ORD-1700000000000-42'',
      o_customer_name = ''Jane'', o_customer_email = None, o_customer_phone = None,
      o_customer_address = ''123 Rd'', o_total_amount = tot, o_status = st,
      o_payment_method = ''cash'', o_payment_status = ''pending'', o_notes = None\<rparr>"

definition item_row :: "nat \<Rightarrow> nat \<Rightarrow> string \<Rightarrow> int \<Rightarrow> double \<Rightarrow> order_item" where
  "item_row k i name q price =
     \<lparr>oi_id = k, oi_order_id = 1, oi_product_id = i, oi_product_name = name,
      oi_quantity = q, oi_price = price, oi_subtotal = dmul price (dbl q)\<rparr>"

definition placed :: db where
  "placed = snd (placeOrder shelf20 (Some jane) clock (cart [\<lparr>product_id = 1, quantity = Some 5\<rparr>]))"

definition cancelled_once :: db where
  "cancelled_once = snd (updateOrderStatus placed (Some admin) 1 ''cancelled'')"

text \<open>
  A cart whose second entry has quantity \<open>null\<close>; a cart that names product 1 twice, a
  cart for one unit of product 2 and a cart for six units of product 1; a clock for a
  request that comes later.
\<close>

definition null_in_the_middle :: order_request where
  "null_in_the_middle =
     cart [\<lparr>product_id = 1, quantity = Some 3\<rparr>, \<lparr>product_id = 2, quantity = None\<rparr>,
           \<lparr>product_id = 1, quantity = Some 2\<rparr>]"

definition twice_six :: order_request where
  "twice_six = cart [\<lparr>product_id = 1, quantity = Some 6\<rparr>, \<lparr>product_id = 1, quantity = Some 6\<rparr>]"

definition one_gauze :: order_request where
  "one_gauze = cart [\<lparr>product_id = 2, quantity = Some 1\<rparr>]"

definition six :: order_request where
  "six = cart [\<lparr>product_id = 1, quantity = Some 6\<rparr>]"

definition later :: "nat \<Rightarrow> nat \<times> nat" where
  "later k = (1700000000500 + k, 7)"

definition taken :: db where
  "taken = snd (placeOrder shelf (Some jane) clock (cart [\<lparr>product_id = 1, quantity = Some 3\<rparr>]))"

section \<open>Properties of the statements and loops\<close>

subsection \<open>Rounding\<close>

text \<open>
  The double nearest to 0.1 times 3 is 0.30000000000000004, which is not three times
  the value of the factor; small integers are exact.
\<close>

lemma dmul_tenth_three:
  "dmul (Dbl 3602879701896397 (- 55)) (dbl 3) = Dbl 1351079888211149 (- 52)"
  by (simp add: dbl_def rnd_def norm_dbl.simps blen.simps Let_def)

lemma dmul_tenth_three_inexact:
  "dval (Dbl 1351079888211149 (- 52)) \<noteq> 3 * dval (Dbl 3602879701896397 (- 55))"
  by simp

lemma dval_examples:
  "dval (dbl 300) = 300" "dval (dbl 500) = 500"
  by (simp_all add: dbl_def rnd_def norm_dbl.simps blen.simps Let_def)

subsection \<open>Quantity adjustments\<close>

lemma adjust_adjust: "adjust d (adjust e ps) = adjust (\<lambda>i. e i + d i) ps"
  by (simp add: adjust_def)

lemma adjust_cong: "(\<And>i. d i = e i) \<Longrightarrow> adjust d ps = adjust e ps"
  by (simp add: adjust_def)

lemma adjust_zero: "adjust (\<lambda>i. 0) ps = ps"
  by (simp add: adjust_def)

lemma updateProduct_adjust:
  "products (updateProduct s q i) = adjust (\<lambda>j. if j = i then - q else 0) (products s)"
  by (simp add: updateProduct_def adjust_def)

lemma restoreProduct_adjust:
  "products (restoreProduct s q i) = adjust (\<lambda>j. if j = i then q else 0) (products s)"
  by (simp add: restoreProduct_def adjust_def)

lemma restoreProduct_rest:
  "orders (restoreProduct s q i) = orders s"
  "order_items (restoreProduct s q i) = order_items s"
  "orders_seq (restoreProduct s q i) = orders_seq s"
  "order_items_seq (restoreProduct s q i) = order_items_seq s"
  by (simp_all add: restoreProduct_def)

text \<open>
  The restore loop adds to every product the quantities of the order's items that name
  it, and touches nothing else.
\<close>

lemma restore_items_products:
  "products (restore_items rows s) =
     adjust (demand (map (\<lambda>r. (oi_product_id r, oi_quantity r)) rows)) (products s)"
proof (induction rows arbitrary: s)
  case Nil
  show ?case by (simp add: adjust_def)
next
  case (Cons r rows)
  have "(\<lambda>i. (if i = oi_product_id r then oi_quantity r else 0) +
              demand (map (\<lambda>r. (oi_product_id r, oi_quantity r)) rows) i)
        = demand (map (\<lambda>r. (oi_product_id r, oi_quantity r)) (r # rows))"
    by auto
  then show ?case
    by (simp add: Cons.IH restoreProduct_adjust adjust_adjust del: demand.simps)
qed

lemma restore_items_rest:
  "orders (restore_items rows s) = orders s"
  "order_items (restore_items rows s) = order_items s"
  "orders_seq (restore_items rows s) = orders_seq s"
  "order_items_seq (restore_items rows s) = order_items_seq s"
  by (induction rows arbitrary: s) (simp_all add: restoreProduct_rest)

text \<open>
  A write loop that runs to its end has subtracted from every product the quantities
  of the entries that name it, and has appended one row per entry.
\<close>

lemma write_items_ok:
  "write_items orderId vs s = (None, s') \<Longrightarrow>
     products s' = adjust (\<lambda>i. - demand (map (\<lambda>v. (v_product_id v, js_num (v_quantity v))) vs) i) (products s)
   \<and> order_items s' = order_items s @ rows_of orderId (order_items_seq s) vs
   \<and> orders s' = orders s \<and> orders_seq s' = orders_seq s
   \<and> order_items_seq s' = order_items_seq s + length vs"
proof (induction vs arbitrary: s)
  case Nil
  then show ?case by (simp add: adjust_def)
next
  case (Cons v vs)
  from Cons.prems obtain q where q: "v_quantity v = Some q"
    by (cases "v_quantity v") auto
  let ?s1 = "updateProduct (insertOrderItem s orderId v q) q (v_product_id v)"
  from Cons.prems q have "write_items orderId vs ?s1 = (None, s')" by simp
  from Cons.IH[OF this] have
    p: "products s' = adjust (\<lambda>i. - demand (map (\<lambda>v. (v_product_id v, js_num (v_quantity v))) vs) i) (products ?s1)"
    and r: "order_items s' = order_items ?s1 @ rows_of orderId (order_items_seq ?s1) vs"
      "orders s' = orders ?s1" "orders_seq s' = orders_seq ?s1"
      "order_items_seq s' = order_items_seq ?s1 + length vs"
    by simp_all
  have "products s' = adjust (\<lambda>i. - demand (map (\<lambda>v. (v_product_id v, js_num (v_quantity v))) (v # vs)) i) (products s)"
  proof -
    have ps: "products (insertOrderItem s orderId v q) = products s"
      by (simp add: insertOrderItem_def)
    show ?thesis
      unfolding p updateProduct_adjust adjust_adjust ps
      by (rule adjust_cong) (simp add: q)
  qed
  moreover have "order_items s' = order_items s @ rows_of orderId (order_items_seq s) (v # vs)"
    "orders s' = orders s" "orders_seq s' = orders_seq s"
    "order_items_seq s' = order_items_seq s + length (v # vs)"
    using r by (simp_all add: q updateProduct_def insertOrderItem_def)
  ultimately show ?case by blast
qed


lemma write_items_Some:
  "write_items orderId vs s = (Some e, s') \<Longrightarrow>
     e = SqliteError ''NOT NULL constraint failed: order_items.quantity''"
  by (induction vs arbitrary: s) (auto split: option.splits)

lemma write_items_frame:
  "write_items orderId vs s = (r, s') \<Longrightarrow>
     orders s' = orders s \<and> orders_seq s' = orders_seq s \<and>
     (\<forall>x \<in> set (order_items s'). x \<in> set (order_items s) \<or> oi_order_id x = orderId)"
proof (induction vs arbitrary: s)
  case Nil
  then show ?case by auto
next
  case (Cons v vs)
  show ?case
  proof (cases "v_quantity v")
    case None
    with Cons.prems show ?thesis by auto
  next
    case (Some q)
    let ?s1 = "updateProduct (insertOrderItem s orderId v q) q (v_product_id v)"
    from Cons.prems Some have "write_items orderId vs ?s1 = (r, s')" by simp
    from Cons.IH[OF this] show ?thesis
      by (auto simp: updateProduct_def insertOrderItem_def)
  qed
qed

subsection \<open>The validation loop\<close>

lemma getProduct_id: "getProduct ps i = Some p \<Longrightarrow> p_id p = i"
  by (auto simp: getProduct_def find_Some_iff)

lemma validate_ok:
  "validate ps its t acc = Inr (tot, vs) \<Longrightarrow>
     \<exists>new. vs = acc @ new \<and> tot = foldl dadd t (map v_subtotal new) \<and>
           list_all2 (priced ps) its new"
proof (induction its arbitrary: t acc)
  case Nil
  then show ?case by simp
next
  case (Cons it its)
  from Cons.prems obtain p where p: "getProduct ps (product_id it) = Some p"
    by (cases "getProduct ps (product_id it)") auto
  from Cons.prems p have le: "\<not> p_quantity p < js_num (quantity it)"
    by (auto split: if_splits)
  define v where "v = \<lparr>v_product_id = p_id p, v_product_name = p_name p,
     v_quantity = quantity it, v_price = p_price p,
     v_subtotal = dmul (p_price p) (dbl (js_num (quantity it)))\<rparr>"
  from Cons.prems p le
  have "validate ps its (dadd t (v_subtotal v)) (acc @ [v]) = Inr (tot, vs)"
    by (simp add: v_def Let_def)
  from Cons.IH[OF this] obtain new where
    new: "vs = (acc @ [v]) @ new" "tot = foldl dadd (dadd t (v_subtotal v)) (map v_subtotal new)"
      "list_all2 (priced ps) its new"
    by blast
  have "priced ps it v"
    using p le by (simp add: priced_def v_def getProduct_id)
  with new have "vs = acc @ (v # new) \<and>
    tot = foldl dadd t (map v_subtotal (v # new)) \<and> list_all2 (priced ps) (it # its) (v # new)"
    by simp
  then show ?case by blast
qed

lemma validate_valid:
  "valid_cart ps its \<Longrightarrow> \<exists>tot vs. validate ps its t acc = Inr (tot, vs)"
proof (induction its arbitrary: t acc)
  case Nil
  then show ?case by simp
next
  case (Cons it its)
  from Cons.prems obtain p where p: "getProduct ps (product_id it) = Some p"
    "\<not> p_quantity p < js_num (quantity it)"
    by (auto simp: valid_cart_def)
  from Cons.prems have "valid_cart ps its" by (simp add: valid_cart_def)
  from Cons.IH[OF this] show ?case using p by (simp add: Let_def)
qed

lemma validate_Inl:
  "validate ps its t acc = Inl e \<Longrightarrow> http_status e = 400"
proof (induction its arbitrary: t acc)
  case Nil
  then show ?case by simp
next
  case (Cons it its)
  then show ?case
    by (cases "getProduct ps (product_id it)") (auto simp: Let_def split: if_splits)
qed

lemma validate_invalid:
  "\<not> valid_cart ps its \<Longrightarrow> \<exists>e. validate ps its t acc = Inl e"
proof (induction its arbitrary: t acc)
  case Nil
  then show ?case by (simp add: valid_cart_def)
next
  case (Cons it its)
  show ?case
  proof (cases "getProduct ps (product_id it)")
    case None
    then show ?thesis by simp
  next
    case (Some p)
    show ?thesis
    proof (cases "p_quantity p < js_num (quantity it)")
      case True
      with Some show ?thesis by simp
    next
      case False
      with Some Cons.prems have "\<not> valid_cart ps its" by (simp add: valid_cart_def)
      from Cons.IH[OF this] Some False show ?thesis by (simp add: Let_def)
    qed
  qed
qed

lemma invalid_cart:
  assumes "it \<in> set its"
    and "getProduct ps (product_id it) = None \<or>
         (\<exists>p q. getProduct ps (product_id it) = Some p \<and> quantity it = Some q \<and> p_quantity p < q)"
  shows "\<not> valid_cart ps its"
proof
  assume "valid_cart ps its"
  with assms(1) obtain p where "getProduct ps (product_id it) = Some p"
    "\<not> p_quantity p < js_num (quantity it)"
    by (auto simp: valid_cart_def)
  with assms(2) show False by auto
qed

lemma priced_pairs:
  "list_all2 (priced ps) its vs \<Longrightarrow>
     map (\<lambda>v. (v_product_id v, js_num (v_quantity v))) vs =
     map (\<lambda>it. (product_id it, js_num (quantity it))) its"
  by (induction its vs rule: list_all2_induct) (simp_all add: priced_def)

subsection \<open>The inserted rows\<close>

lemma rows_of_pairs:
  "map (\<lambda>r. (oi_product_id r, oi_quantity r)) (rows_of orderId n vs) =
     map (\<lambda>v. (v_product_id v, js_num (v_quantity v))) vs"
  by (induction vs arbitrary: n) simp_all

lemma rows_of_subtotal: "map oi_subtotal (rows_of orderId n vs) = map v_subtotal vs"
  by (induction vs arbitrary: n) simp_all

lemma rows_of_order_id: "r \<in> set (rows_of orderId n vs) \<Longrightarrow> oi_order_id r = orderId"
  by (induction vs arbitrary: n) auto

lemma rows_of_filter: "filter (\<lambda>r. oi_order_id r = orderId) (rows_of orderId n vs) = rows_of orderId n vs"
  by (simp add: rows_of_order_id)

lemma rows_of_priced:
  "list_all2 (priced ps) its vs \<Longrightarrow> r \<in> set (rows_of orderId n vs) \<Longrightarrow>
     oi_subtotal r = dmul (oi_price r) (dbl (oi_quantity r)) \<and>
     (\<exists>p. getProduct ps (oi_product_id r) = Some p \<and> oi_price r = p_price p)"
proof (induction its vs arbitrary: n rule: list_all2_induct)
  case Nil
  then show ?case by simp
next
  case (Cons it its v vs)
  then show ?case by (auto simp: priced_def)
qed


subsection \<open>Placing an order\<close>

lemma find_append_fresh: "\<forall>x \<in> set xs. \<not> P x \<Longrightarrow> find P (xs @ ys) = find P ys"
  by (induction xs) auto

lemma insertOrder_Inr:
  "insertOrder s uid num name address req tot = Inr (orderId, s1) \<Longrightarrow>
     num \<notin> set (map o_order_number (orders s)) \<and> uid \<in> set (map u_id (users s)) \<and>
     orderId = Suc (orders_seq s) \<and>
     (\<exists>ord. o_id ord = orderId \<and> o_total_amount ord = tot \<and> o_status ord = ''pending'' \<and>
            o_user_id ord = uid \<and> o_order_number ord = num \<and>
            orders s1 = orders s @ [ord]) \<and>
     orders_seq s1 = orderId \<and> products s1 = products s \<and>
     order_items s1 = order_items s \<and> order_items_seq s1 = order_items_seq s"
  by (auto simp: insertOrder_def Let_def split: if_splits)

text \<open>
  A successful request went through every check, and its store is the old one with
  one order row, one item row per entry, and the stock of every product reduced by
  the cart's demand.
\<close>

lemma placeOrder_success:
  assumes "placeOrder s sess gen req = (Inr view, s')"
  shows "\<exists>u its name address tot vs ord.
     sess = Some u \<and> items req = Some its \<and> its \<noteq> [] \<and>
     customer_name req = Some name \<and> name \<noteq> [] \<and>
     customer_address req = Some address \<and> address \<noteq> [] \<and>
     validate (products s) its (dbl 0) [] = Inr (tot, vs) \<and>
     generateOrderNumber (gen 0) \<notin> set (map o_order_number (orders s)) \<and>
     o_id ord = Suc (orders_seq s) \<and> o_total_amount ord = tot \<and>
     o_status ord = ''pending'' \<and> o_user_id ord = u_id u \<and>
     orders s' = orders s @ [ord] \<and> orders_seq s' = Suc (orders_seq s) \<and>
     order_items s' = order_items s @ rows_of (Suc (orders_seq s)) (order_items_seq s) vs \<and>
     products s' = adjust (\<lambda>i. - cart_demand its i) (products s) \<and>
     view = (getOrderRow s' (Suc (orders_seq s)), getOrderItems s' (Suc (orders_seq s)))"
proof -
  from assms obtain u where u: "sess = Some u"
    by (cases sess) (auto simp: placeOrder_def)
  from assms u obtain its where its: "items req = Some its" "its \<noteq> []"
    by (cases "items req") (auto simp: placeOrder_def split: if_splits)
  from assms u its obtain name where name: "customer_name req = Some name"
    by (cases "customer_name req") (auto simp: placeOrder_def)
  from assms u its name obtain address where address: "customer_address req = Some address"
    by (cases "customer_address req") (auto simp: placeOrder_def)
  from assms u its name address have ne: "name \<noteq> []" "address \<noteq> []"
    by (auto simp: placeOrder_def split: if_splits)
  from assms u its name address ne obtain tot vs where
    val: "validate (products s) its (dbl 0) [] = Inr (tot, vs)"
    by (cases "validate (products s) its (dbl 0) []") (auto simp: placeOrder_def)
  from assms u its name address ne val obtain orderId s1 where
    ins: "insertOrder s (u_id u) (generateOrderNumber (gen 0)) name address req tot = Inr (orderId, s1)"
    by (cases "insertOrder s (u_id u) (generateOrderNumber (gen 0)) name address req tot")
       (auto simp: placeOrder_def)
  from assms u its name address ne val ins have
    wr: "write_items orderId vs s1 = (None, s')"
    and view: "view = (getOrderRow s' orderId, getOrderItems s' orderId)"
    by (auto simp: placeOrder_def split: prod.splits option.splits)
  from insertOrder_Inr[OF ins] obtain ord where
    i: "generateOrderNumber (gen 0) \<notin> set (map o_order_number (orders s))"
      "orderId = Suc (orders_seq s)" "o_id ord = orderId" "o_total_amount ord = tot"
      "o_status ord = ''pending''" "o_user_id ord = u_id u" "orders s1 = orders s @ [ord]"
      "orders_seq s1 = orderId" "products s1 = products s"
      "order_items s1 = order_items s" "order_items_seq s1 = order_items_seq s"
    by blast
  from validate_ok[OF val] have pr: "list_all2 (priced (products s)) its vs"
    by auto
  from write_items_ok[OF wr] have
    w: "products s' = adjust (\<lambda>i. - demand (map (\<lambda>v. (v_product_id v, js_num (v_quantity v))) vs) i) (products s1)"
      "order_items s' = order_items s1 @ rows_of orderId (order_items_seq s1) vs"
      "orders s' = orders s1" "orders_seq s' = orders_seq s1"
    by simp_all
  have "products s' = adjust (\<lambda>i. - cart_demand its i) (products s)"
    by (simp add: w i cart_demand_def priced_pairs[OF pr])
  with u its name address ne val i w view show ?thesis
    by auto
qed

lemma placeOrder_view:
  assumes wf: "wf_db s" and po: "placeOrder s sess gen req = (Inr view, s')"
  shows "\<exists>its tot vs ord.
     items req = Some its \<and> validate (products s) its (dbl 0) [] = Inr (tot, vs) \<and>
     view = (Some ord, rows_of (Suc (orders_seq s)) (order_items_seq s) vs) \<and>
     o_id ord = Suc (orders_seq s) \<and> o_total_amount ord = tot \<and>
     getOrderRow s' (o_id ord) = Some ord \<and>
     getOrderItems s' (o_id ord) = rows_of (Suc (orders_seq s)) (order_items_seq s) vs"
proof -
  from placeOrder_success[OF po] obtain its tot vs ord where
    a: "items req = Some its" "validate (products s) its (dbl 0) [] = Inr (tot, vs)"
      "o_id ord = Suc (orders_seq s)" "o_total_amount ord = tot"
      "orders s' = orders s @ [ord]"
      "order_items s' = order_items s @ rows_of (Suc (orders_seq s)) (order_items_seq s) vs"
      "view = (getOrderRow s' (Suc (orders_seq s)), getOrderItems s' (Suc (orders_seq s)))"
    by blast
  from wf have "\<forall>r \<in> set (orders s). \<not> o_id r = Suc (orders_seq s)"
    by (fastforce simp: wf_db_def)
  then have row: "getOrderRow s' (Suc (orders_seq s)) = Some ord"
    by (simp add: getOrderRow_def a find_append_fresh)
  from wf have "\<forall>r \<in> set (order_items s). \<not> oi_order_id r = Suc (orders_seq s)"
    by (fastforce simp: wf_db_def)
  then have "filter (\<lambda>r. oi_order_id r = Suc (orders_seq s)) (order_items s) = []"
    by (simp add: filter_empty_conv)
  then have rows: "getOrderItems s' (Suc (orders_seq s)) =
      rows_of (Suc (orders_seq s)) (order_items_seq s) vs"
    by (simp add: getOrderItems_def a rows_of_filter)
  from a row rows show ?thesis by auto
qed


lemma placeOrder_rejects:
  assumes "sess = Some u" and "invalid_request s req"
  shows "\<exists>e. placeOrder s sess gen req = (Inl e, s) \<and> http_status e = 400"
proof (cases "items req")
  case None
  with assms(1) show ?thesis by (simp add: placeOrder_def)
next
  case (Some its)
  note its = Some
  show ?thesis
  proof (cases "its = []")
    case True
    with assms(1) its show ?thesis by (simp add: placeOrder_def)
  next
    case ne: False
    show ?thesis
    proof (cases "customer_name req")
      case None
      with assms(1) its ne show ?thesis by (simp add: placeOrder_def)
    next
      case (Some name)
      note name = Some
      show ?thesis
      proof (cases "customer_address req")
        case None
        with assms(1) its ne name show ?thesis by (simp add: placeOrder_def)
      next
        case (Some address)
        note address = Some
        show ?thesis
        proof (cases "name = [] \<or> address = []")
          case True
          with assms(1) its ne name address show ?thesis
            by (auto simp: placeOrder_def)
        next
          case False
          with assms(2) its ne name address
          obtain it where "it \<in> set its"
            "getProduct (products s) (product_id it) = None \<or>
             (\<exists>p q. getProduct (products s) (product_id it) = Some p \<and>
                    quantity it = Some q \<and> p_quantity p < q)"
            using assms(2) its ne name address False
            unfolding invalid_request_def by auto
          then have "\<not> valid_cart (products s) its"
            by (rule invalid_cart)
          from validate_invalid[OF this] obtain e where
            e: "validate (products s) its (dbl 0) [] = Inl e" by blast
          from validate_Inl[OF e] have "http_status e = 400" .
          with assms(1) its ne name address False e show ?thesis
            by (simp add: placeOrder_def)
        qed
      qed
    qed
  qed
qed

lemma placeOrder_400:
  assumes "placeOrder s sess gen req = (Inl e, s')" and "http_status e = 400"
  shows "s' = s"
proof (rule ccontr)
  assume ne: "s' \<noteq> s"
  from assms(1) ne obtain u where u: "sess = Some u"
    by (cases sess) (auto simp: placeOrder_def)
  from assms(1) ne u obtain its where its: "items req = Some its" "its \<noteq> []"
    by (cases "items req") (auto simp: placeOrder_def split: if_splits)
  from assms(1) ne u its obtain name where name: "customer_name req = Some name"
    by (cases "customer_name req") (auto simp: placeOrder_def)
  from assms(1) ne u its name obtain address where address: "customer_address req = Some address"
    by (cases "customer_address req") (auto simp: placeOrder_def)
  from assms(1) ne u its name address have nn: "name \<noteq> []" "address \<noteq> []"
    by (auto simp: placeOrder_def split: if_splits)
  from assms(1) ne u its name address nn obtain tot vs where
    val: "validate (products s) its (dbl 0) [] = Inr (tot, vs)"
    by (cases "validate (products s) its (dbl 0) []") (auto simp: placeOrder_def)
  from assms(1) ne u its name address nn val obtain orderId s1 where
    ins: "insertOrder s (u_id u) (generateOrderNumber (gen 0)) name address req tot = Inr (orderId, s1)"
    by (cases "insertOrder s (u_id u) (generateOrderNumber (gen 0)) name address req tot")
       (auto simp: placeOrder_def)
  from assms(1) u its name address nn val ins have "write_items orderId vs s1 = (Some e, s')"
    by (auto simp: placeOrder_def split: prod.splits option.splits)
  from write_items_Some[OF this] assms(2) show False by simp
qed

subsection \<open>Updating a status\<close>

lemma updateOrder_fields:
  "products (snd (updateOrder s status i)) = products s"
  "order_items (snd (updateOrder s status i)) = order_items s"
  "orders_seq (snd (updateOrder s status i)) = orders_seq s"
  "order_items_seq (snd (updateOrder s status i)) = order_items_seq s"
  "getOrderItems (snd (updateOrder s status i)) j = getOrderItems s j"
  by (simp_all add: updateOrder_def getOrderItems_def)

lemma find_filter_ne: "find P xs = Some x \<Longrightarrow> filter P xs \<noteq> []"
  by (induction xs) (auto split: if_splits)

lemma updateOrder_changes:
  "getOrderRow s i = Some r \<Longrightarrow> fst (updateOrder s status i) \<noteq> 0"
  by (simp add: updateOrder_def getOrderRow_def find_filter_ne)

lemma find_set_status:
  "find (\<lambda>r. o_id r = i) (map (\<lambda>r. if o_id r = i then r\<lparr>o_status := st\<rparr> else r) xs) =
     map_option (\<lambda>r. r\<lparr>o_status := st\<rparr>) (find (\<lambda>r. o_id r = i) xs)"
  by (induction xs) auto

lemma updateOrderStatus_other:
  "status \<noteq> ''cancelled'' \<Longrightarrow> products (snd (updateOrderStatus s sess i status)) = products s"
  by (simp add: updateOrderStatus_def updateOrder_def split: option.splits)

lemma updateOrderStatus_cancel:
  assumes "getOrderRow s i = Some r"
  shows "updateOrderStatus s (Some u) i ''cancelled'' =
           (Inr (), restore_items (getOrderItems s i) (snd (updateOrder s ''cancelled'' i)))"
proof -
  obtain n s1 where e: "updateOrder s ''cancelled'' i = (n, s1)"
    by (cases "updateOrder s ''cancelled'' i")
  from updateOrder_changes[OF assms, of "''cancelled''"] e have "n \<noteq> 0" by simp
  moreover from updateOrder_fields(5)[of s "''cancelled''" i i] e
  have "getOrderItems s1 i = getOrderItems s i" by simp
  ultimately show ?thesis
    by (simp add: updateOrderStatus_def e validStatuses_def)
qed

lemma updateOrderStatus_cancel_products:
  assumes "getOrderRow s i = Some r"
  shows "fst (updateOrderStatus s (Some u) i ''cancelled'') = Inr ()"
    and "products (snd (updateOrderStatus s (Some u) i ''cancelled'')) =
           adjust (items_demand (getOrderItems s i)) (products s)"
  by (simp_all add: updateOrderStatus_cancel[OF assms] restore_items_products
        updateOrder_fields items_demand_def)

lemma place_then_cancel:
  assumes wf: "wf_db s" and po: "placeOrder s sess gen req = (Inr (ordopt, rows), s1)"
  shows "\<exists>ord. ordopt = Some ord \<and>
           fst (updateOrderStatus s1 (Some u) (o_id ord) ''cancelled'') = Inr () \<and>
           products (snd (updateOrderStatus s1 (Some u) (o_id ord) ''cancelled'')) = products s"
proof -
  from placeOrder_view[OF wf po] obtain its tot vs ord where
    a: "items req = Some its" "validate (products s) its (dbl 0) [] = Inr (tot, vs)"
      "ordopt = Some ord" "getOrderRow s1 (o_id ord) = Some ord"
      "getOrderItems s1 (o_id ord) = rows_of (Suc (orders_seq s)) (order_items_seq s) vs"
    by auto
  from placeOrder_success[OF po] a(1)
  have p: "products s1 = adjust (\<lambda>i. - cart_demand its i) (products s)"
    by auto
  from validate_ok[OF a(2)] have pr: "list_all2 (priced (products s)) its vs"
    by auto
  have d: "items_demand (getOrderItems s1 (o_id ord)) = cart_demand its"
    by (simp add: a(5) items_demand_def cart_demand_def rows_of_pairs priced_pairs[OF pr])
  have "products (snd (updateOrderStatus s1 (Some u) (o_id ord) ''cancelled'')) = products s"
    by (simp add: updateOrderStatus_cancel_products(2)[OF a(4)] d p adjust_adjust adjust_zero)
  with a(3) updateOrderStatus_cancel_products(1)[OF a(4)] show ?thesis by simp
qed

subsection \<open>Two orders, one after the other\<close>

text \<open>
  The handler runs from its first statement to its response without yielding (no
  \<open>await\<close>, no callback, and the store's driver is synchronous), so two requests that
  arrive together are served one after the other, in either order. When neither cart
  names a product twice and both orders are accepted, the two together take no more
  of a product than the store had, and its stock stays non-negative.
\<close>

lemma getProduct_adjust:
  "getProduct (adjust d ps) i =
     map_option (\<lambda>p. p\<lparr>p_quantity := p_quantity p + d (p_id p)\<rparr>) (getProduct ps i)"
  by (induction ps) (auto simp: getProduct_def adjust_def)

lemma demand_absent: "i \<notin> fst ` set xs \<Longrightarrow> demand xs i = 0"
  by (induction xs) auto

lemma demand_distinct:
  "distinct (map fst xs) \<Longrightarrow> (i, q) \<in> set xs \<Longrightarrow> demand xs i = q"
proof (induction xs)
  case Nil
  then show ?case by simp
next
  case (Cons x xs)
  obtain j r where x: "x = (j, r)" by (cases x)
  show ?case
  proof (cases "(i, q) = x")
    case True
    with Cons.prems x have "i \<notin> fst ` set xs" by auto
    with True x show ?thesis by (simp add: demand_absent)
  next
    case False
    with Cons.prems have in_xs: "(i, q) \<in> set xs" by simp
    with Cons.prems x have "j \<noteq> i" by force
    with Cons x in_xs show ?thesis by simp
  qed
qed

lemma cart_demand_absent:
  "i \<notin> product_id ` set its \<Longrightarrow> cart_demand its i = 0"
  unfolding cart_demand_def
  by (rule demand_absent) (auto simp: image_iff)

lemma cart_demand_distinct:
  assumes "distinct (map product_id its)" and "it \<in> set its"
  shows "cart_demand its (product_id it) = js_num (quantity it)"
proof -
  have "map fst (map (\<lambda>it. (product_id it, js_num (quantity it))) its) = map product_id its"
    by simp
  with assms(1) have "distinct (map fst (map (\<lambda>it. (product_id it, js_num (quantity it))) its))"
    by (simp only:)
  moreover from assms(2) have
    "(product_id it, js_num (quantity it)) \<in> set (map (\<lambda>it. (product_id it, js_num (quantity it))) its)"
    by auto
  ultimately show ?thesis
    unfolding cart_demand_def by (rule demand_distinct)
qed

lemma placeOrder_checked:
  assumes "placeOrder s sess gen req = (Inr view, s')" and "items req = Some its"
    and "it \<in> set its"
  shows "\<exists>p. getProduct (products s) (product_id it) = Some p \<and>
             js_num (quantity it) \<le> p_quantity p"
proof -
  from placeOrder_success[OF assms(1)] assms(2) obtain tot vs where
    "validate (products s) its (dbl 0) [] = Inr (tot, vs)" by auto
  from validate_ok[OF this] have "list_all2 (priced (products s)) its vs" by auto
  with assms(3) obtain v where "priced (products s) it v"
    by (auto simp: in_set_conv_nth list_all2_conv_all_nth)
  then show ?thesis by (auto simp: priced_def)
qed

lemma sequential_orders_bound:
  assumes first: "placeOrder s sess1 gen1 req1 = (Inr view1, s1)"
    and second: "placeOrder s1 sess2 gen2 req2 = (Inr view2, s2)"
    and its1: "items req1 = Some its1" and its2: "items req2 = Some its2"
    and d1: "distinct (map product_id its1)" and d2: "distinct (map product_id its2)"
    and row: "getProduct (products s) i = Some p" and nonneg: "0 \<le> p_quantity p"
  shows "cart_demand its1 i + cart_demand its2 i \<le> p_quantity p"
    and "\<exists>p'. getProduct (products s2) i = Some p' \<and>
            p_quantity p' = p_quantity p - (cart_demand its1 i + cart_demand its2 i) \<and>
            0 \<le> p_quantity p'"
proof -
  from getProduct_id[OF row] have pid: "p_id p = i" .
  from placeOrder_success[OF first] its1 have
    p1: "products s1 = adjust (\<lambda>i. - cart_demand its1 i) (products s)" by auto
  from placeOrder_success[OF second] its2 have
    p2: "products s2 = adjust (\<lambda>i. - cart_demand its2 i) (products s1)" by auto
  have row1: "getProduct (products s1) i = Some (p\<lparr>p_quantity := p_quantity p - cart_demand its1 i\<rparr>)"
    by (simp add: p1 getProduct_adjust row pid)
  have le1: "cart_demand its1 i \<le> p_quantity p"
  proof (cases "i \<in> product_id ` set its1")
    case True
    then obtain it where it: "it \<in> set its1" "product_id it = i" by auto
    from placeOrder_checked[OF first its1 it(1)] row it(2)
    have "js_num (quantity it) \<le> p_quantity p" by simp
    with cart_demand_distinct[OF d1 it(1)] it(2) show ?thesis by simp
  next
    case False
    with nonneg show ?thesis by (simp add: cart_demand_absent)
  qed
  show le: "cart_demand its1 i + cart_demand its2 i \<le> p_quantity p"
  proof (cases "i \<in> product_id ` set its2")
    case True
    then obtain it where it: "it \<in> set its2" "product_id it = i" by auto
    from placeOrder_checked[OF second its2 it(1)] row1 it(2)
    have "js_num (quantity it) \<le> p_quantity p - cart_demand its1 i" by simp
    with cart_demand_distinct[OF d2 it(1)] it(2) show ?thesis by simp
  next
    case False
    with le1 show ?thesis by (simp add: cart_demand_absent)
  qed
  have "getProduct (products s2) i =
      Some (p\<lparr>p_quantity := p_quantity p - cart_demand its1 i - cart_demand its2 i\<rparr>)"
    by (simp add: p2 getProduct_adjust row1 pid)
  with le show "\<exists>p'. getProduct (products s2) i = Some p' \<and>
            p_quantity p' = p_quantity p - (cart_demand its1 i + cart_demand its2 i) \<and>
            0 \<le> p_quantity p'"
    by simp
qed

subsection \<open>The store stays well formed\<close>

lemma wf_db_empty:
  "wf_db \<lparr>users = us, products = ps, orders = [], order_items = [],
           orders_seq = 0, order_items_seq = 0\<rparr>"
  by (simp add: wf_db_def)

lemma placeOrder_wf:
  assumes "wf_db s"
  shows "wf_db (snd (placeOrder s sess gen req))"
proof (cases "snd (placeOrder s sess gen req) = s")
  case True
  with assms show ?thesis by simp
next
  case ne: False
  obtain res s' where po: "placeOrder s sess gen req = (res, s')"
    by (cases "placeOrder s sess gen req")
  with ne have ne: "s' \<noteq> s" by simp
  from po ne obtain u where u: "sess = Some u"
    by (cases sess) (auto simp: placeOrder_def)
  from po ne u obtain its where its: "items req = Some its" "its \<noteq> []"
    by (cases "items req") (auto simp: placeOrder_def split: if_splits)
  from po ne u its obtain name where name: "customer_name req = Some name"
    by (cases "customer_name req") (auto simp: placeOrder_def)
  from po ne u its name obtain address where address: "customer_address req = Some address"
    by (cases "customer_address req") (auto simp: placeOrder_def)
  from po ne u its name address have nn: "name \<noteq> []" "address \<noteq> []"
    by (auto simp: placeOrder_def split: if_splits)
  from po ne u its name address nn obtain tot vs where
    val: "validate (products s) its (dbl 0) [] = Inr (tot, vs)"
    by (cases "validate (products s) its (dbl 0) []") (auto simp: placeOrder_def)
  from po ne u its name address nn val obtain orderId s1 where
    ins: "insertOrder s (u_id u) (generateOrderNumber (gen 0)) name address req tot = Inr (orderId, s1)"
    by (cases "insertOrder s (u_id u) (generateOrderNumber (gen 0)) name address req tot")
       (auto simp: placeOrder_def)
  from po u its name address nn val ins obtain r where
    wr: "write_items orderId vs s1 = (r, s')"
    by (auto simp: placeOrder_def split: prod.splits option.splits)
  from insertOrder_Inr[OF ins] obtain ord where
    i: "orderId = Suc (orders_seq s)" "o_id ord = orderId" "orders s1 = orders s @ [ord]"
      "orders_seq s1 = orderId" "order_items s1 = order_items s"
    by blast
  from write_items_frame[OF wr] have
    f: "orders s' = orders s1" "orders_seq s' = orders_seq s1"
      "\<forall>x \<in> set (order_items s'). x \<in> set (order_items s1) \<or> oi_order_id x = orderId"
    by simp_all
  have "wf_db s'"
    unfolding wf_db_def
  proof (intro conjI ballI)
    fix x assume "x \<in> set (orders s')"
    with f i assms show "o_id x \<le> orders_seq s'"
      by (auto simp: wf_db_def le_Suc_eq)
  next
    fix x assume "x \<in> set (order_items s')"
    with f i assms show "oi_order_id x \<le> orders_seq s'"
      by (auto simp: wf_db_def le_Suc_eq)
  qed
  with po show ?thesis by simp
qed

lemma updateOrderStatus_wf:
  assumes "wf_db s"
  shows "wf_db (snd (updateOrderStatus s sess i status))"
proof -
  have u: "wf_db (snd (updateOrder s st i))" for st
    using assms by (auto simp: wf_db_def updateOrder_def)
  have r: "wf_db (restore_items rows t)" if "wf_db t" for rows t
    using that by (simp add: wf_db_def restore_items_rest)
  show ?thesis
    using assms u[of status] r[OF u[of status]]
    by (cases "updateOrder s status i")
       (auto simp: updateOrderStatus_def split: option.splits)
qed

subsection \<open>The examples, evaluated\<close>

lemma clock0: "generateOrderNumber (clock 0) = ''ORD-1700000000000-42''"
  by (simp add: generateOrderNumber_def clock_def dec.simps digits_def)

lemmas run_simps = placeOrder_def insertOrder_def insertOrderItem_def updateProduct_def
  getProduct_def getOrderRow_def getOrderItems_def Let_def
  dbl_def rnd_def norm_dbl.simps blen.simps
  clock0 cart_def jane_def sam_def admin_def roster_def order_row_def item_row_def

lemma placed_eq:
  "placeOrder shelf20 (Some jane) clock (cart [\<lparr>product_id = 1, quantity = Some 5\<rparr>]) =
     (Inr (Some (order_row (dbl 500) ''pending''), [item_row 1 1 ''Aspirin'' 5 (dbl 100)]),
      \<lparr>users = roster, products = [\<lparr>p_id = 1, p_name = ''Aspirin'', p_quantity = 15, p_price = dbl 100\<rparr>],
       orders = [order_row (dbl 500) ''pending''],
       order_items = [item_row 1 1 ''Aspirin'' 5 (dbl 100)],
       orders_seq = 1, order_items_seq = 1\<rparr>)"
  by (simp add: run_simps shelf20_def)

lemma placed_db:
  "placed = \<lparr>users = roster, products = [\<lparr>p_id = 1, p_name = ''Aspirin'', p_quantity = 15, p_price = dbl 100\<rparr>],
       orders = [order_row (dbl 500) ''pending''],
       order_items = [item_row 1 1 ''Aspirin'' 5 (dbl 100)],
       orders_seq = 1, order_items_seq = 1\<rparr>"
  by (simp only: placed_def placed_eq snd_conv)

lemma placed_run:
  "placeOrder shelf20 (Some jane) clock (cart [\<lparr>product_id = 1, quantity = Some 5\<rparr>]) =
     (Inr (Some (order_row (dbl 500) ''pending''), [item_row 1 1 ''Aspirin'' 5 (dbl 100)]), placed)"
  by (simp only: placed_db placed_eq)

lemma later0: "generateOrderNumber (later 0) = ''ORD-1700000000500-7''"
  by (simp add: generateOrderNumber_def later_def dec.simps digits_def)

text \<open>
  An order placed from a session whose user row is gone: the insert of the header
  throws on the foreign key, and nothing is written.
\<close>

lemma deleted_user_order:
  "placeOrder shelf (Some ghost) clock six =
     (Inl (SqliteError ''FOREIGN KEY constraint failed''), shelf)"
  by (simp add: shelf_def six_def ghost_def run_simps)

text \<open>
  The specification's two orders of 6 units on a stock of 10: whichever is served
  first is accepted and leaves 4, the other is refused for insufficient stock and
  changes nothing.
\<close>

lemma two_orders_of_six:
  "map p_quantity (products shelf) = [10, 5] \<and>
   fst (placeOrder shelf (Some jane) clock six) =
     Inr (Some (order_row (dbl 600) ''pending''), [item_row 1 1 ''Aspirin'' 6 (dbl 100)]) \<and>
   map p_quantity (products (snd (placeOrder shelf (Some jane) clock six))) = [4, 5] \<and>
   placeOrder (snd (placeOrder shelf (Some jane) clock six)) (Some sam) later six =
     (Inl (InsufficientStock ''Aspirin'' 4 (Some 6)), snd (placeOrder shelf (Some jane) clock six))"
  by (simp add: shelf_def six_def run_simps later0)

lemma wf_shelf: "wf_db shelf"
  by (simp add: shelf_def wf_db_def)

lemma wf_shelf20: "wf_db shelf20"
  by (simp add: shelf20_def wf_db_def)

section \<open>The claims\<close>

subsection \<open>C1: the write phase is not all-or-nothing\<close>

text \<open>
  Claim C1 asks that the write phase of PlaceOrder (order header, one item row per cart
  entry, one stock decrement per entry) be all-or-nothing: when a step fails, nothing
  of the call persists. The handler opens no transaction, so every statement commits
  on its own. On the store \<open>shelf\<close> (no orders, stock 10 and 5), a cart whose first
  entry asks for 3 units of product 1 and whose second entry has quantity \<open>null\<close>
  passes validation (\<open>5 < null\<close> is false), the header and the first item are inserted,
  product 1 is decremented to 7, and the second insert throws on the \<open>NOT NULL\<close>
  column: the response is the 500 error, and the header, the first item and the
  decrement stay in the store.
\<close>

theorem placeOrder_partial_write:
  "orders shelf = [] \<and> order_items shelf = [] \<and> map p_quantity (products shelf) = [10, 5] \<and>
   placeOrder shelf (Some jane) clock
     (cart [\<lparr>product_id = 1, quantity = Some 3\<rparr>, \<lparr>product_id = 2, quantity = None\<rparr>]) =
     (Inl (SqliteError ''NOT NULL constraint failed: order_items.quantity''),
      \<lparr>users = roster, products = [\<lparr>p_id = 1, p_name = ''Aspirin'', p_quantity = 7, p_price = dbl 100\<rparr>,
                   \<lparr>p_id = 2, p_name = ''Gauze'', p_quantity = 5, p_price = dbl 50\<rparr>],
       orders = [order_row (dbl 300) ''pending''],
       order_items = [item_row 1 1 ''Aspirin'' 3 (dbl 100)],
       orders_seq = 1, order_items_seq = 1\<rparr>)"
  by (simp add: shelf_def run_simps)

subsection \<open>C2: stock can become negative\<close>

text \<open>
  Claim C2 asks that every product quantity stay non-negative after each committed
  PlaceOrder or cancellation, from a store where all quantities are non-negative.
  The validation loop compares every cart entry with the stock as it is before the
  request, so two entries for the same product are each checked against the full
  stock. On \<open>shelf\<close> (stock 10 of product 1) a cart with two entries of 6 units of
  product 1 is accepted, and the stock of product 1 becomes \<open>- 2\<close>.
\<close>

theorem placeOrder_duplicate_lines_oversell:
  "map p_quantity (products shelf) = [10, 5] \<and>
   fst (placeOrder shelf (Some jane) clock
     (cart [\<lparr>product_id = 1, quantity = Some 6\<rparr>, \<lparr>product_id = 1, quantity = Some 6\<rparr>])) =
     Inr (Some (order_row (dbl 1200) ''pending''),
          [item_row 1 1 ''Aspirin'' 6 (dbl 100), item_row 2 1 ''Aspirin'' 6 (dbl 100)]) \<and>
   map p_quantity (products (snd (placeOrder shelf (Some jane) clock
     (cart [\<lparr>product_id = 1, quantity = Some 6\<rparr>, \<lparr>product_id = 1, quantity = Some 6\<rparr>])))) =
     [- 2, 5]"
  by (simp add: shelf_def run_simps)

subsection \<open>C3: only a cancellation changes inventory, and it undoes the order\<close>

text \<open>
  Claim C3. UpdateOrderStatus changes inventory if and only if the new status is
  \<open>'cancelled'\<close>. (1) With any other status the products are unchanged, whatever the
  outcome. (2) Cancelling an existing order succeeds and adds to every product the
  quantities of the order's items that name it. (3) On a well-formed store, cancelling
  an order that PlaceOrder has just created gives back the products as they were
  before the order was placed.
\<close>

theorem updateOrderStatus_inventory:
  "(status \<noteq> ''cancelled'' \<longrightarrow>
      products (snd (updateOrderStatus s sess i status)) = products s) \<and>
   (getOrderRow s i \<noteq> None \<longrightarrow>
      fst (updateOrderStatus s (Some u) i ''cancelled'') = Inr () \<and>
      products (snd (updateOrderStatus s (Some u) i ''cancelled'')) =
        adjust (items_demand (getOrderItems s i)) (products s)) \<and>
   (wf_db s0 \<and> placeOrder s0 sess0 gen req = (Inr (ordopt, rows), s1) \<longrightarrow>
      (\<exists>ord. ordopt = Some ord \<and>
         fst (updateOrderStatus s1 (Some u) (o_id ord) ''cancelled'') = Inr () \<and>
         products (snd (updateOrderStatus s1 (Some u) (o_id ord) ''cancelled'')) = products s0))"
proof (intro conjI impI)
  assume "status \<noteq> ''cancelled''"
  then show "products (snd (updateOrderStatus s sess i status)) = products s"
    by (rule updateOrderStatus_other)
next
  assume "getOrderRow s i \<noteq> None"
  then obtain r where r: "getOrderRow s i = Some r" by blast
  show "fst (updateOrderStatus s (Some u) i ''cancelled'') = Inr ()"
    by (rule updateOrderStatus_cancel_products(1)[OF r])
  show "products (snd (updateOrderStatus s (Some u) i ''cancelled'')) =
        adjust (items_demand (getOrderItems s i)) (products s)"
    by (rule updateOrderStatus_cancel_products(2)[OF r])
next
  assume "wf_db s0 \<and> placeOrder s0 sess0 gen req = (Inr (ordopt, rows), s1)"
  then have "wf_db s0" "placeOrder s0 sess0 gen req = (Inr (ordopt, rows), s1)"
    by simp_all
  then show "\<exists>ord. ordopt = Some ord \<and>
         fst (updateOrderStatus s1 (Some u) (o_id ord) ''cancelled'') = Inr () \<and>
         products (snd (updateOrderStatus s1 (Some u) (o_id ord) ''cancelled'')) = products s0"
    by (rule place_then_cancel)
qed

text \<open>
  The specification's example: stock 20, an order for 5 leaves 15, setting the order
  to \<open>'shipped'\<close> leaves 15, cancelling it gives 20 again.
\<close>

theorem updateOrderStatus_inventory_witness:
  "''shipped'' \<noteq> ''cancelled'' \<and> getOrderRow placed 1 \<noteq> None \<and> wf_db shelf20 \<and>
   placeOrder shelf20 (Some jane) clock (cart [\<lparr>product_id = 1, quantity = Some 5\<rparr>]) =
     (Inr (Some (order_row (dbl 500) ''pending''), [item_row 1 1 ''Aspirin'' 5 (dbl 100)]), placed) \<and>
   map p_quantity (products shelf20) = [20] \<and>
   map p_quantity (products placed) = [15] \<and>
   products (snd (updateOrderStatus placed (Some jane) 1 ''shipped'')) = products placed \<and>
   fst (updateOrderStatus placed (Some admin) 1 ''cancelled'') = Inr () \<and>
   products (snd (updateOrderStatus placed (Some admin) 1 ''cancelled'')) = products shelf20"
proof -
  have h1: "''shipped'' \<noteq> ''cancelled''" by simp
  have h2: "getOrderRow placed 1 \<noteq> None"
    by (simp add: placed_db getOrderRow_def order_row_def)
  note h3 = wf_shelf20
  note h4 = placed_run
  have q: "map p_quantity (products shelf20) = [20]" "map p_quantity (products placed) = [15]"
    by (simp_all add: shelf20_def placed_db)
  have i: "o_id (order_row (dbl 500) ''pending'') = 1" by (simp add: order_row_def)
  from updateOrderStatus_inventory[where status = "''shipped''" and s = placed
      and sess = "Some jane" and i = 1 and u = admin and ?s0.0 = shelf20
      and ?sess0.0 = "Some jane" and gen = clock
      and req = "cart [\<lparr>product_id = 1, quantity = Some 5\<rparr>]"
      and ordopt = "Some (order_row (dbl 500) ''pending'')"
      and rows = "[item_row 1 1 ''Aspirin'' 5 (dbl 100)]" and ?s1.0 = placed]
    h1 h2 h3 h4 q i
  show ?thesis by auto
qed

subsection \<open>C4: a second cancellation is accepted and restores the stock again\<close>

lemma cancelled_once_db:
  "cancelled_once = \<lparr>users = roster, products = [\<lparr>p_id = 1, p_name = ''Aspirin'', p_quantity = 20, p_price = dbl 100\<rparr>],
       orders = [order_row (dbl 500) ''cancelled''],
       order_items = [item_row 1 1 ''Aspirin'' 5 (dbl 100)],
       orders_seq = 1, order_items_seq = 1\<rparr>"
  by (simp add: cancelled_once_def placed_db updateOrderStatus_def updateOrder_def restoreProduct_def validStatuses_def
      getOrderItems_def order_row_def item_row_def)

text \<open>
  Claim C4 asks that cancelling an order whose status is already \<open>'cancelled'\<close> be
  rejected with AlreadyCancelled, without a second stock restore. The handler never
  reads the current status. With stock 20, an order for 5 and one cancellation bring
  the stock back to 20; the second cancellation is answered with success and the stock
  becomes 25.
\<close>

theorem cancel_twice_counterexample:
  "map p_quantity (products shelf20) = [20] \<and>
   map p_quantity (products placed) = [15] \<and>
   map p_quantity (products cancelled_once) = [20] \<and>
   map o_status (orders cancelled_once) = [''cancelled''] \<and>
   fst (updateOrderStatus cancelled_once (Some admin) 1 ''cancelled'') = Inr () \<and>
   map p_quantity (products (snd (updateOrderStatus cancelled_once (Some admin) 1 ''cancelled''))) = [25]"
  by (simp add: cancelled_once_db placed_db shelf20_def updateOrderStatus_def updateOrder_def restoreProduct_def validStatuses_def
      getOrderItems_def order_row_def item_row_def)

text \<open>
  Claim C4 as the handler has it: cancelling an order whose status is already
  \<open>'cancelled'\<close> succeeds, leaves the order row as it is, and adds the quantities of
  the order's items to the products once more.
\<close>

theorem updateOrderStatus_cancel_again:
  assumes "getOrderRow s i = Some r" and "o_status r = ''cancelled''"
  shows "fst (updateOrderStatus s (Some u) i ''cancelled'') = Inr () \<and>
         products (snd (updateOrderStatus s (Some u) i ''cancelled'')) =
           adjust (items_demand (getOrderItems s i)) (products s) \<and>
         getOrderRow (snd (updateOrderStatus s (Some u) i ''cancelled'')) i = Some r"
proof -
  have "r\<lparr>o_status := ''cancelled''\<rparr> = r"
    using assms(2) by simp
  then have "getOrderRow (snd (updateOrder s ''cancelled'' i)) i = Some r"
    using assms(1) by (simp add: getOrderRow_def updateOrder_def find_set_status)
  then have "getOrderRow (snd (updateOrderStatus s (Some u) i ''cancelled'')) i = Some r"
    by (simp add: updateOrderStatus_cancel[OF assms(1)] getOrderRow_def restore_items_rest)
  with updateOrderStatus_cancel_products[OF assms(1)] show ?thesis by simp
qed

theorem updateOrderStatus_cancel_again_witness:
  "getOrderRow cancelled_once 1 = Some (order_row (dbl 500) ''cancelled'') \<and>
   o_status (order_row (dbl 500) ''cancelled'') = ''cancelled'' \<and>
   fst (updateOrderStatus cancelled_once (Some admin) 1 ''cancelled'') = Inr () \<and>
   products (snd (updateOrderStatus cancelled_once (Some admin) 1 ''cancelled'')) =
     adjust (items_demand (getOrderItems cancelled_once 1)) (products cancelled_once) \<and>
   getOrderRow (snd (updateOrderStatus cancelled_once (Some admin) 1 ''cancelled'')) 1 =
     Some (order_row (dbl 500) ''cancelled'')"
proof -
  have h1: "getOrderRow cancelled_once 1 = Some (order_row (dbl 500) ''cancelled'')"
    by (simp add: cancelled_once_db getOrderRow_def order_row_def)
  have h2: "o_status (order_row (dbl 500) ''cancelled'') = ''cancelled''"
    by (simp add: order_row_def)
  from updateOrderStatus_cancel_again[OF h1 h2, of admin] h1 h2 show ?thesis by blast
qed

subsection \<open>C5: an order left behind by a failed write does not reconcile\<close>

text \<open>
  What does hold: for the order that a successful PlaceOrder returns on a well-formed
  store (the row returned is the row stored, and the items returned are the items
  stored for it), \<open>total_amount\<close> is the sum of the items' subtotals, added in cart order
  from 0 in double arithmetic as the handler adds them; every subtotal is the double
  product of the item's price and quantity; and that price is the price the product
  had in the store when the order was placed.
\<close>

lemma placeOrder_returned_total:
  assumes "wf_db s" and "placeOrder s sess gen req = (Inr (ordopt, rows), s')"
  shows "\<exists>ord. ordopt = Some ord \<and> getOrderRow s' (o_id ord) = Some ord \<and>
           getOrderItems s' (o_id ord) = rows \<and>
           o_total_amount ord = foldl dadd (dbl 0) (map oi_subtotal rows) \<and>
           (\<forall>r \<in> set rows. oi_subtotal r = dmul (oi_price r) (dbl (oi_quantity r)) \<and>
              (\<exists>p. getProduct (products s) (oi_product_id r) = Some p \<and>
                   oi_price r = p_price p))"
proof -
  from placeOrder_view[OF assms] obtain its tot vs ord where
    a: "validate (products s) its (dbl 0) [] = Inr (tot, vs)"
      "ordopt = Some ord" "rows = rows_of (Suc (orders_seq s)) (order_items_seq s) vs"
      "o_total_amount ord = tot" "getOrderRow s' (o_id ord) = Some ord"
      "getOrderItems s' (o_id ord) = rows_of (Suc (orders_seq s)) (order_items_seq s) vs"
    by auto
  from validate_ok[OF a(1)] have pr: "list_all2 (priced (products s)) its vs"
    and t: "tot = foldl dadd (dbl 0) (map v_subtotal vs)"
    by auto
  have "o_total_amount ord = foldl dadd (dbl 0) (map oi_subtotal rows)"
    by (simp add: a(3,4) t rows_of_subtotal)
  moreover have "\<forall>r \<in> set rows. oi_subtotal r = dmul (oi_price r) (dbl (oi_quantity r)) \<and>
              (\<exists>p. getProduct (products s) (oi_product_id r) = Some p \<and> oi_price r = p_price p)"
    unfolding a(3) using rows_of_priced[OF pr] by blast
  moreover have "getOrderItems s' (o_id ord) = rows"
    by (simp only: a(3,6))
  ultimately show ?thesis using a(2,5) by blast
qed

text \<open>
  Claim C5 asks that for every Order created by PlaceOrder \<open>total_amount\<close> equal the sum
  of its OrderItems' subtotals. The order header is inserted, with the total of the
  whole cart, before the items are, and nothing is rolled back when an item insert
  throws. On \<open>shelf\<close> the cart \<open>null_in_the_middle\<close> (3 units of product 1, quantity
  \<open>null\<close> of product 2, 2 units of product 1) passes validation with total
  300 + 0 + 200; the header is stored with total 500, the first item with subtotal
  300, and the second insert throws: the request is answered with the 500 error and
  the store keeps order 1 with total 500 and a single item of subtotal 300.
\<close>

theorem placeOrder_total_left_behind:
  "fst (placeOrder shelf (Some jane) clock null_in_the_middle) =
     Inl (SqliteError ''NOT NULL constraint failed: order_items.quantity'') \<and>
   getOrderRow (snd (placeOrder shelf (Some jane) clock null_in_the_middle)) 1 =
     Some (order_row (dbl 500) ''pending'') \<and>
   getOrderItems (snd (placeOrder shelf (Some jane) clock null_in_the_middle)) 1 =
     [item_row 1 1 ''Aspirin'' 3 (dbl 100)] \<and>
   o_total_amount (order_row (dbl 500) ''pending'') = dbl 500 \<and>
   foldl dadd (dbl 0) (map oi_subtotal [item_row 1 1 ''Aspirin'' 3 (dbl 100)]) = dbl 300 \<and>
   dval (dbl 500) = 500 \<and> dval (dbl 300) = 300"
  by (simp add: shelf_def null_in_the_middle_def run_simps)

subsection \<open>C6: validation failures come before any write\<close>

text \<open>
  Claim C6. A PlaceOrder request of an authenticated caller that fails validation
  (\<open>invalid_request\<close>) is answered with a 400 error and the store is unchanged; and
  whenever PlaceOrder answers with a 400 error, the store is unchanged.
\<close>

theorem placeOrder_validation_first:
  "(sess = Some u \<and> invalid_request s req \<longrightarrow>
      (\<exists>e. placeOrder s sess gen req = (Inl e, s) \<and> http_status e = 400)) \<and>
   (placeOrder s sess gen req = (Inl e', s') \<and> http_status e' = 400 \<longrightarrow> s' = s)"
proof (intro conjI impI)
  assume "sess = Some u \<and> invalid_request s req"
  then have "sess = Some u" "invalid_request s req" by simp_all
  then show "\<exists>e. placeOrder s sess gen req = (Inl e, s) \<and> http_status e = 400"
    by (rule placeOrder_rejects)
next
  assume "placeOrder s sess gen req = (Inl e', s') \<and> http_status e' = 400"
  then have "placeOrder s sess gen req = (Inl e', s')" "http_status e' = 400" by simp_all
  then show "s' = s" by (rule placeOrder_400)
qed

theorem placeOrder_validation_first_witness:
  "invalid_request shelf
     (cart [\<lparr>product_id = 1, quantity = Some 3\<rparr>, \<lparr>product_id = 2, quantity = Some 9\<rparr>]) \<and>
   placeOrder shelf (Some jane) clock
     (cart [\<lparr>product_id = 1, quantity = Some 3\<rparr>, \<lparr>product_id = 2, quantity = Some 9\<rparr>]) =
     (Inl (InsufficientStock ''Gauze'' 5 (Some 9)), shelf) \<and>
   http_status (InsufficientStock ''Gauze'' 5 (Some 9)) = 400"
proof -
  let ?req = "cart [\<lparr>product_id = 1, quantity = Some 3\<rparr>, \<lparr>product_id = 2, quantity = Some 9\<rparr>]"
  have "\<exists>p q. getProduct (products shelf) (product_id \<lparr>product_id = 2, quantity = Some 9\<rparr>) = Some p \<and>
      quantity \<lparr>product_id = 2, quantity = Some 9\<rparr> = Some q \<and> p_quantity p < q"
    by (simp add: shelf_def getProduct_def)
  then have h1: "invalid_request shelf ?req"
    unfolding invalid_request_def cart_def by fastforce
  have h2: "placeOrder shelf (Some jane) clock ?req =
      (Inl (InsufficientStock ''Gauze'' 5 (Some 9)), shelf)"
    by (simp add: shelf_def run_simps)
  have h3: "http_status (InsufficientStock ''Gauze'' 5 (Some 9)) = 400" by simp
  from placeOrder_validation_first[of "Some jane" jane shelf ?req clock
      "InsufficientStock ''Gauze'' 5 (Some 9)" shelf] h1 h2 h3
  show ?thesis by blast
qed

subsection \<open>C7: quantities that are zero or negative are accepted\<close>




subsection \<open>C8: an order-number collision is a server error, without retry\<close>

lemma clock1: "generateOrderNumber (clock (Suc 0)) = ''ORD-1700000000001-42''"
  by (simp add: generateOrderNumber_def clock_def dec.simps digits_def)

lemma taken_db:
  "taken = \<lparr>users = roster, products = [\<lparr>p_id = 1, p_name = ''Aspirin'', p_quantity = 7, p_price = dbl 100\<rparr>,
                         \<lparr>p_id = 2, p_name = ''Gauze'', p_quantity = 5, p_price = dbl 50\<rparr>],
       orders = [order_row (dbl 300) ''pending''],
       order_items = [item_row 1 1 ''Aspirin'' 3 (dbl 100)],
       orders_seq = 1, order_items_seq = 1\<rparr>"
  by (simp add: taken_def shelf_def run_simps)

text \<open>
  Claim C8 asks that a collision of the generated order number surface as a retryable
  DuplicateOrderNumber error and that generation and insert be retried a bounded
  number of times with fresh numbers. The handler calls \<open>generateOrderNumber\<close> once.
  On \<open>taken\<close>, whose only order has the number the clock gives at the first call, a
  valid request fails with the store's \<open>UNIQUE\<close> exception as a 500 error, although the
  number a second call would have produced is free.
\<close>

theorem collision_counterexample:
  "generateOrderNumber (clock 0) \<in> set (map o_order_number (orders taken)) \<and>
   generateOrderNumber (clock 1) \<notin> set (map o_order_number (orders taken)) \<and>
   placeOrder taken (Some jane) clock (cart [\<lparr>product_id = 2, quantity = Some 1\<rparr>]) =
     (Inl (SqliteError ''UNIQUE constraint failed: orders.order_number''), taken) \<and>
   http_status (SqliteError ''UNIQUE constraint failed: orders.order_number'') = 500"
  by (simp add: taken_db clock1 run_simps)

text \<open>
  Claim C8 as the handler has it: when the one order number generated for a request
  that passes validation is already in the store, PlaceOrder answers with the 500
  error carrying the message of the \<open>UNIQUE\<close> constraint, whatever later calls of the
  generator would return, and the store is unchanged.
\<close>

theorem placeOrder_collision:
  assumes "sess = Some u" and "items req = Some its" and "its \<noteq> []"
    and "customer_name req = Some name" and "name \<noteq> []"
    and "customer_address req = Some address" and "address \<noteq> []"
    and vc: "valid_cart (products s) its"
    and taken: "generateOrderNumber (gen 0) \<in> set (map o_order_number (orders s))"
  shows "placeOrder s sess gen req =
           (Inl (SqliteError ''UNIQUE constraint failed: orders.order_number''), s) \<and>
         http_status (SqliteError ''UNIQUE constraint failed: orders.order_number'') = 500"
proof -
  from validate_valid[OF vc] obtain tot vs where
    val: "validate (products s) its (dbl 0) [] = Inr (tot, vs)" by blast
  from taken have
    "insertOrder s (u_id u) (generateOrderNumber (gen 0)) name address req tot =
       Inl (SqliteError ''UNIQUE constraint failed: orders.order_number'')"
    by (simp add: insertOrder_def)
  with assms(1-7) val show ?thesis
    by (simp add: placeOrder_def)
qed

theorem placeOrder_collision_witness:
  "valid_cart (products taken) [\<lparr>product_id = 2, quantity = Some 1\<rparr>] \<and>
   generateOrderNumber (clock 0) \<in> set (map o_order_number (orders taken)) \<and>
   placeOrder taken (Some jane) clock (cart [\<lparr>product_id = 2, quantity = Some 1\<rparr>]) =
     (Inl (SqliteError ''UNIQUE constraint failed: orders.order_number''), taken)"
proof -
  let ?its = "[\<lparr>product_id = 2, quantity = Some 1\<rparr>]"
  have a: "Some jane = Some jane" "items (cart ?its) = Some ?its" "?its \<noteq> []"
    "customer_name (cart ?its) = Some ''Jane''" "''Jane'' \<noteq> []"
    "customer_address (cart ?its) = Some ''123 Rd''" "''123 Rd'' \<noteq> []"
    by (simp_all add: cart_def)
  have vc: "valid_cart (products taken) ?its"
    by (simp add: valid_cart_def taken_db getProduct_def)
  have tk: "generateOrderNumber (clock 0) \<in> set (map o_order_number (orders taken))"
    by (simp add: taken_db clock0 order_row_def)
  from placeOrder_collision[where gen = clock, OF a vc tk] vc tk show ?thesis by blast
qed

subsection \<open>C9: two accepted orders can take more than the stock\<close>

text \<open>
  Claim C9 asks that no two committed PlaceOrder calls together deduct more of a
  product than was available when the earlier one started, and that the stock never
  become negative. Requests are served one after the other, and for carts that name
  no product twice the bound holds (\<open>sequential_orders_bound\<close>, \<open>two_orders_of_six\<close>).
  It fails for a cart that names a product twice, because every line is checked
  against the stock as it was before the request: on \<open>shelf\<close> (stock 10 of product 1),
  the request \<open>twice_six\<close> and the request \<open>one_gauze\<close> are both accepted, in either
  order, and together they take 12 units of product 1, leaving \<open>- 2\<close>.
\<close>

theorem two_orders_oversell:
  "map p_quantity (products shelf) = [10, 5] \<and>
   \<not> isl (fst (placeOrder shelf (Some jane) clock twice_six)) \<and>
   \<not> isl (fst (placeOrder (snd (placeOrder shelf (Some jane) clock twice_six))
                  (Some sam) later one_gauze)) \<and>
   map p_quantity (products (snd (placeOrder (snd (placeOrder shelf (Some jane) clock twice_six))
                  (Some sam) later one_gauze))) = [- 2, 4] \<and>
   \<not> isl (fst (placeOrder shelf (Some sam) clock one_gauze)) \<and>
   \<not> isl (fst (placeOrder (snd (placeOrder shelf (Some sam) clock one_gauze))
                  (Some jane) later twice_six)) \<and>
   map p_quantity (products (snd (placeOrder (snd (placeOrder shelf (Some sam) clock one_gauze))
                  (Some jane) later twice_six))) = [- 2, 4]"
  by (simp add: shelf_def twice_six_def one_gauze_def run_simps later0)

subsection \<open>C10: reading an order makes no ownership check\<close>

text \<open>
  Claim C10. GetOrder answers every authenticated caller alike: the response does not
  depend on who asks, and for an existing order it is the order row with its items.
\<close>

theorem getOrder_no_ownership_check:
  "getOrder s (Some u) i = getOrder s (Some u') i \<and>
   (getOrderRow s i = Some r \<longrightarrow> getOrder s (Some u) i = Inr (r, getOrderItems s i))"
  by (simp add: getOrder_def split: option.splits)

text \<open>
  The order of customer 7 in \<open>placed\<close>, read by customer 8.
\<close>

theorem getOrder_no_ownership_check_witness:
  "getOrderRow placed 1 = Some (order_row (dbl 500) ''pending'') \<and>
   o_user_id (order_row (dbl 500) ''pending'') = u_id jane \<and>
   u_id sam \<noteq> u_id jane \<and>
   getOrder placed (Some sam) 1 = getOrder placed (Some jane) 1 \<and>
   getOrder placed (Some sam) 1 = Inr (order_row (dbl 500) ''pending'', getOrderItems placed 1) \<and>
   getOrderItems placed 1 = [item_row 1 1 ''Aspirin'' 5 (dbl 100)]"
proof -
  have h1: "getOrderRow placed 1 = Some (order_row (dbl 500) ''pending'')"
    by (simp add: placed_db getOrderRow_def order_row_def)
  have h2: "o_user_id (order_row (dbl 500) ''pending'') = u_id jane" "u_id sam \<noteq> u_id jane"
    "getOrderItems placed 1 = [item_row 1 1 ''Aspirin'' 5 (dbl 100)]"
    by (simp_all add: order_row_def jane_def sam_def placed_db getOrderItems_def item_row_def)
  from getOrder_no_ownership_check[of placed sam 1 jane "order_row (dbl 500) ''pending''"] h1 h2
  show ?thesis by blast
qed

end
